theory Spec2Isabelle
  imports Complex_Main "HOL-Library.Multiset"
begin

section \<open>Data model\<close>

text \<open>
  Modelled from the spec: the \<open>Trap\<close> and \<open>TrapStatistics\<close> classes of the vendored API
  client are not among the source files. The glossary calls a trap "a remote rodent-trap
  device record (id, name, battery level, kill count, coordinates, firmware)"; the records
  below carry exactly the fields the three source files read. Identifiers and counters are
  Python integers, timestamps are seconds since the epoch, and the coordinates are kept in
  the textual form they are handed to \<open>float(...)\<close> in.
\<close>

type_synonym datetime = int

record TrapStatistics =
  kills_present :: int
  board_type :: string
  firmware_version :: string
  battery_level :: int
  last_report_date :: datetime
  last_kill_date :: datetime

record Trap =
  id' :: int
  name :: string
  serial_number :: string
  trap_type_verbose :: string
  ssid :: string
  lat :: string
  long :: string
  trapstatistics :: TrapStatistics

text \<open>
  What a call may raise. \<open>BaseException\<close> stands for the classes outside \<open>Exception\<close>
  (cancellation, keyboard interrupt), which a clause \<open>except Exception\<close> lets through;
  \<open>UpdateFailed\<close> carries the exception it wraps.
\<close>

datatype exn =
    Exception string
  | BaseException string
  | UpdateFailed exn
  | StopIteration
  | RuntimeError
  | ValueError
  | TypeError

fun isinstance_Exception :: "exn \<Rightarrow> bool" where
  "isinstance_Exception (BaseException d) = False"
| "isinstance_Exception e = True"

text \<open>
  The event bus of the host is the list of events fired so far, oldest first. An event has
  the name it was fired under and its payload, a Python dict kept in insertion order.
\<close>

record event =
  event_type :: string
  event_data :: "(string \<times> int list) list"

text \<open>
  The coordinator object: \<open>data\<close> is the result of the last successful refresh (\<open>None\<close>
  before the first one), \<open>update_interval\<close> is a \<open>timedelta\<close> in seconds.
\<close>

record coordinator =
  data :: "Trap list option"
  update_interval :: nat
  platforms :: "string list"
  client_closed :: bool
  last_update_success :: bool

record world =
  coordinator :: coordinator
  bus :: "event list"

text \<open>
  The constants of \<open>const.py\<close>, which is not among the source files, and the two functions
  of the host the entity classes call are parameters: \<open>py_float\<close> is \<open>float(...)\<close> on a
  coordinate (\<open>None\<close> when it raises \<open>ValueError\<close>), \<open>as_local\<close> is \<open>dt.as_local\<close>.
\<close>

record env =
  DOMAIN :: string
  MANUFACTURER :: string
  EVENT_TRAP_LIST_CHANGED :: string
  ATTR_LAST_KILL_DATE :: string
  ATTR_LAST_REPORT_DATE :: string
  ATTR_SSID :: string
  py_float :: "string \<Rightarrow> real option"
  as_local :: "datetime \<Rightarrow> datetime"

section \<open>The polling coordinator\<close>

definition timedelta_minutes :: "nat \<Rightarrow> nat" where
  "timedelta_minutes m = 60 * m"

definition SCAN_INTERVAL :: nat where
  "SCAN_INTERVAL = timedelta_minutes 5"

text \<open>\<open>sorted([trap.id for trap in traps])\<close>\<close>

definition sorted_trap_ids :: "Trap list \<Rightarrow> int list" where
  "sorted_trap_ids traps = sort (map id' traps)"

text \<open>
  An exception leaving a coroutine: a \<open>StopIteration\<close> that would leave the body of an
  \<open>async def\<close> is replaced by a \<open>RuntimeError\<close>; every other exception leaves as it is.
\<close>

definition coroutine_raises :: "exn \<Rightarrow> exn" where
  "coroutine_raises e = (if e = StopIteration then RuntimeError else e)"

text \<open>
  \<open>_get_traps\<close>: the answer of the remote API is an input of the model, either the list of
  traps or what the client raised. The method logs, returns the list unchanged and
  re-raises what it caught; both it and the client's \<open>get_traps\<close> are coroutines.
\<close>

definition get_traps :: "exn + Trap list \<Rightarrow> exn + Trap list" where
  "get_traps api =
     (case api of Inr traps \<Rightarrow> Inr traps | Inl e \<Rightarrow> Inl (coroutine_raises e))"

text \<open>The clause \<open>except Exception as exception: raise UpdateFailed(exception)\<close>.\<close>

definition except_Exception :: "exn \<Rightarrow> exn" where
  "except_Exception e = (if isinstance_Exception e then UpdateFailed e else e)"

text \<open>\<open>not self.data\<close>: true for \<open>None\<close> and for the empty list.\<close>

fun not_data :: "Trap list option \<Rightarrow> bool" where
  "not_data None = True"
| "not_data (Some traps) = (traps = [])"

definition trap_list_changed_event :: "env \<Rightarrow> int list \<Rightarrow> int list \<Rightarrow> event" where
  "trap_list_changed_event cfg previous_trap_ids current_trap_ids =
     \<lparr>event_type = EVENT_TRAP_LIST_CHANGED cfg,
      event_data = [(''previous_traps'', previous_trap_ids),
                    (''current_traps'', current_trap_ids)]\<rparr>"

text \<open>
  \<open>async_update_data\<close>. Log calls are left out. The method assigns nothing on \<open>self\<close>; the
  state it returns differs from the one it got by the fired event at most.
\<close>

definition async_update_data ::
  "env \<Rightarrow> exn + Trap list \<Rightarrow> world \<Rightarrow> (exn + Trap list) \<times> world" where
  "async_update_data cfg api w =
     (if not_data (data (coordinator w)) then
        (case get_traps api of
           Inl e \<Rightarrow> (Inl (except_Exception e), w)
         | Inr traps \<Rightarrow> (Inr traps, w))
      else
        (let previous_trap_ids = sorted_trap_ids (the (data (coordinator w))) in
         case get_traps api of
           Inl e \<Rightarrow> (Inl (except_Exception e), w)
         | Inr traps \<Rightarrow>
             (let current_trap_ids = sorted_trap_ids traps in
              if previous_trap_ids \<noteq> current_trap_ids then
                (Inr traps,
                 w\<lparr>bus := bus w @ [trap_list_changed_event cfg previous_trap_ids current_trap_ids]\<rparr>)
              else (Inr traps, w))))"

text \<open>
  The coordinator as \<open>async_setup_entry\<close> builds it. The base class of the host starts
  with no data and \<open>last_update_success\<close> set; the API client is open.
\<close>

definition VictorSmartKillDataUpdateCoordinator :: "nat \<Rightarrow> coordinator" where
  "VictorSmartKillDataUpdateCoordinator interval =
     \<lparr>data = None, update_interval = interval, platforms = [],
      client_closed = False, last_update_success = True\<rparr>"

text \<open>\<open>async_close\<close> closes the API client.\<close>

definition async_close :: "world \<Rightarrow> world" where
  "async_close w = w\<lparr>coordinator := (coordinator w)\<lparr>client_closed := True\<rparr>\<rparr>"

text \<open>\<open>coordinator.platforms.append(platform)\<close> of \<open>async_setup_entry\<close>.\<close>

definition append_platform :: "string \<Rightarrow> world \<Rightarrow> world" where
  "append_platform platform w =
     w\<lparr>coordinator := (coordinator w)\<lparr>platforms := platforms (coordinator w) @ [platform]\<rparr>\<rparr>"

text \<open>
  \<open>async_refresh\<close> hands over to the base class of the host, which runs the update method
  and keeps what it returned in \<open>data\<close>; a failed update clears \<open>last_update_success\<close>
  and keeps the old data, and an exception outside \<open>Exception\<close> passes through.
\<close>

definition async_refresh :: "env \<Rightarrow> exn + Trap list \<Rightarrow> world \<Rightarrow> world" where
  "async_refresh cfg api w =
     (case async_update_data cfg api w of
        (Inr traps, w') \<Rightarrow>
          w'\<lparr>coordinator := (coordinator w')\<lparr>data := Some traps, last_update_success := True\<rparr>\<rparr>
      | (Inl e, w') \<Rightarrow>
          (if isinstance_Exception e
           then w'\<lparr>coordinator := (coordinator w')\<lparr>last_update_success := False\<rparr>\<rparr>
           else w'))"

text \<open>
  The life of a coordinator: built by \<open>async_setup_entry\<close> with \<open>SCAN_INTERVAL\<close>, then
  any sequence of refreshes (each with the answer the API gave), platform registrations
  and a close.
\<close>

datatype step = Refresh "exn + Trap list" | AppendPlatform string | Close

fun do_step :: "env \<Rightarrow> step \<Rightarrow> world \<Rightarrow> world" where
  "do_step cfg (Refresh api) w = async_refresh cfg api w"
| "do_step cfg (AppendPlatform platform) w = append_platform platform w"
| "do_step cfg Close w = async_close w"

definition setup_world :: "event list \<Rightarrow> world" where
  "setup_world events =
     \<lparr>coordinator = VictorSmartKillDataUpdateCoordinator SCAN_INTERVAL, bus = events\<rparr>"

definition run :: "env \<Rightarrow> step list \<Rightarrow> world \<Rightarrow> world" where
  "run cfg steps w = fold (do_step cfg) steps w"

section \<open>Entities\<close>

text \<open>The attribute names of the host.\<close>

definition ATTR_BATTERY_LEVEL :: string where
  "ATTR_BATTERY_LEVEL = ''battery_level''"

definition ATTR_LATITUDE :: string where
  "ATTR_LATITUDE = ''latitude''"

definition ATTR_LONGITUDE :: string where
  "ATTR_LONGITUDE = ''longitude''"

text \<open>\<open>str(n)\<close> for an integer, as the f-strings format it.\<close>

fun str_nat :: "nat \<Rightarrow> string" where
  "str_nat n =
     (if n < 10 then [''0123456789'' ! n]
      else str_nat (n div 10) @ [''0123456789'' ! (n mod 10)])"

declare str_nat.simps [simp del]

definition str_int :: "int \<Rightarrow> string" where
  "str_int i = (if i < 0 then ''-'' @ str_nat (nat (- i)) else str_nat (nat i))"

text \<open>
  An entity holds the trap it was built for and its coordinator. A property takes the
  entity and returns its value together with the entity as the call leaves it.
\<close>

record entity =
  trap :: Trap
  entity_coordinator :: coordinator

datatype attr_value =
    IntV int
  | StrV string
  | FloatV real
  | DatetimeV datetime
  | IdentifiersV "(string \<times> int \<times> string) list"

text \<open>
  \<open>not trap\<close> on a \<open>Trap\<close> object: the class is a plain record without \<open>__bool__\<close> or
  \<open>__len__\<close>, so every instance is true.
\<close>

definition bool_Trap :: "Trap \<Rightarrow> bool" where
  "bool_Trap t = True"

text \<open>\<open>next(t for t in coordinator.data if t.id == trap_id)\<close>\<close>

fun next_with_id :: "int \<Rightarrow> Trap list \<Rightarrow> exn + Trap" where
  "next_with_id trap_id [] = Inl StopIteration"
| "next_with_id trap_id (t # ts) =
     (if id' t = trap_id then Inr t else next_with_id trap_id ts)"

text \<open>
  \<open>VictorSmartKillEntity.__init__\<close>. Iterating over \<open>coordinator.data\<close> when it is
  \<open>None\<close> raises \<open>TypeError\<close>.
\<close>

definition VictorSmartKillEntity :: "int \<Rightarrow> coordinator \<Rightarrow> exn + entity" where
  "VictorSmartKillEntity trap_id c =
     (case data c of
        None \<Rightarrow> Inl TypeError
      | Some traps \<Rightarrow>
          (case next_with_id trap_id traps of
             Inl e \<Rightarrow> Inl e
           | Inr t \<Rightarrow>
               if \<not> bool_Trap t then Inl ValueError
               else Inr \<lparr>trap = t, entity_coordinator = c\<rparr>))"

text \<open>The binary sensor's suffixes and its list of excluded attributes.\<close>

definition name_suffix :: string where
  "name_suffix = ''capture''"

definition unique_id_suffix :: string where
  "unique_id_suffix = ''capture''"

definition exclude_extra_state_attributes :: "env \<Rightarrow> string list" where
  "exclude_extra_state_attributes cfg = [ATTR_LAST_KILL_DATE cfg]"

text \<open>
  \<open>_exclude_device_state_attributes\<close> of the base class, which the binary sensor does not
  override (it defines \<open>_exclude_extra_state_attributes\<close> instead).
\<close>

definition exclude_device_state_attributes :: "string list" where
  "exclude_device_state_attributes = []"

definition entity_name :: "entity \<Rightarrow> string \<times> entity" where
  "entity_name e = (name (trap e) @ '' '' @ name_suffix, e)"

definition unique_id :: "env \<Rightarrow> entity \<Rightarrow> string \<times> entity" where
  "unique_id cfg e =
     (DOMAIN cfg @ ''_'' @ str_int (id' (trap e)) @ ''_'' @ unique_id_suffix, e)"

definition device_info :: "env \<Rightarrow> entity \<Rightarrow> (string \<times> attr_value) list \<times> entity" where
  "device_info cfg e =
     ([(''identifiers'',
          IdentifiersV [(DOMAIN cfg, id' (trap e), serial_number (trap e))]),
       (''name'', StrV (name (trap e))),
       (''model'',
          StrV (trap_type_verbose (trap e) @ '' ('' @
                board_type (trapstatistics (trap e)) @ '')'')),
       (''manufacturer'', StrV (MANUFACTURER cfg)),
       (''sw_version'', StrV (firmware_version (trapstatistics (trap e))))],
      e)"

text \<open>\<open>del state_attributes[key]\<close> and the loop around it, on the local dict.\<close>

definition del_key :: "string \<Rightarrow> (string \<times> attr_value) list \<Rightarrow> (string \<times> attr_value) list" where
  "del_key key d = filter (\<lambda>kv. fst kv \<noteq> key) d"

fun exclude_keys :: "string list \<Rightarrow> (string \<times> attr_value) list \<Rightarrow> (string \<times> attr_value) list" where
  "exclude_keys [] d = d"
| "exclude_keys (key # keys) d =
     exclude_keys keys (if key \<in> set (map fst d) then del_key key d else d)"

definition device_state_attributes ::
  "env \<Rightarrow> entity \<Rightarrow> (exn + (string \<times> attr_value) list) \<times> entity" where
  "device_state_attributes cfg e =
     (case py_float cfg (lat (trap e)) of
        None \<Rightarrow> (Inl ValueError, e)
      | Some latitude \<Rightarrow>
          (case py_float cfg (long (trap e)) of
             None \<Rightarrow> (Inl ValueError, e)
           | Some longitude \<Rightarrow>
               (let state_attributes =
                      [(ATTR_BATTERY_LEVEL, IntV (battery_level (trapstatistics (trap e)))),
                       (ATTR_SSID cfg, StrV (ssid (trap e))),
                       (ATTR_LATITUDE, FloatV latitude),
                       (ATTR_LONGITUDE, FloatV longitude),
                       (ATTR_LAST_REPORT_DATE cfg,
                          DatetimeV (as_local cfg (last_report_date (trapstatistics (trap e))))),
                       (ATTR_LAST_KILL_DATE cfg,
                          DatetimeV (as_local cfg (last_kill_date (trapstatistics (trap e)))))]
                in (Inr (exclude_keys exclude_device_state_attributes state_attributes), e))))"

text \<open>\<open>VictorSmartKillBinarySensor.is_on\<close>\<close>

definition is_on :: "entity \<Rightarrow> bool \<times> entity" where
  "is_on e = (kills_present (trapstatistics (trap e)) > 0, e)"

section \<open>Sample data\<close>

definition sample_trap :: "int \<Rightarrow> int \<Rightarrow> Trap" where
  "sample_trap i kills =
     \<lparr>id' = i, name = ''Garage'', serial_number = ''SN-1'', trap_type_verbose = ''Mouse'',
      ssid = ''home'', lat = ''59.9'', long = ''10.7'',
      trapstatistics =
        \<lparr>kills_present = kills, board_type = ''A'', firmware_version = ''1.0'',
         battery_level = 80, last_report_date = 1600000000, last_kill_date = 1599990000\<rparr>\<rparr>"

definition sample_env :: env where
  "sample_env =
     \<lparr>DOMAIN = ''victorsmartkill'', MANUFACTURER = ''Victor'',
      EVENT_TRAP_LIST_CHANGED = ''victorsmartkill_trap_list_changed'',
      ATTR_LAST_KILL_DATE = ''last_kill_date'', ATTR_LAST_REPORT_DATE = ''last_report_date'',
      ATTR_SSID = ''ssid'', py_float = (\<lambda>s. None), as_local = (\<lambda>d. d)\<rparr>"

definition sample_coordinator :: "Trap list option \<Rightarrow> coordinator" where
  "sample_coordinator d = (VictorSmartKillDataUpdateCoordinator SCAN_INTERVAL)\<lparr>data := d\<rparr>"

definition sample_world :: "Trap list option \<Rightarrow> world" where
  "sample_world d = \<lparr>coordinator = sample_coordinator d, bus = []\<rparr>"

section \<open>Change detection\<close>

lemma get_traps_Inr: "get_traps (Inr traps) = Inr traps"
  by (simp add: get_traps_def)

lemma get_traps_Inl: "get_traps (Inl e) = Inl (coroutine_raises e)"
  by (simp add: get_traps_def)

lemma update_first_fetch:
  "not_data (data (coordinator w)) \<Longrightarrow>
   async_update_data cfg api w =
     ((case api of Inl e \<Rightarrow> Inl (except_Exception (coroutine_raises e))
                | Inr traps \<Rightarrow> Inr traps), w)"
  by (cases api) (simp_all add: async_update_data_def get_traps_Inr get_traps_Inl)

lemma update_failed_fetch:
  "async_update_data cfg (Inl e) w = (Inl (except_Exception (coroutine_raises e)), w)"
  by (simp add: async_update_data_def get_traps_Inl Let_def)

lemma update_changed:
  "data (coordinator w) = Some prev \<Longrightarrow> prev \<noteq> [] \<Longrightarrow>
   sorted_trap_ids prev \<noteq> sorted_trap_ids cur \<Longrightarrow>
   async_update_data cfg (Inr cur) w =
     (Inr cur,
      w\<lparr>bus := bus w @
        [trap_list_changed_event cfg (sorted_trap_ids prev) (sorted_trap_ids cur)]\<rparr>)"
  by (simp add: async_update_data_def get_traps_Inr Let_def)

lemma update_unchanged:
  "data (coordinator w) = Some prev \<Longrightarrow> prev \<noteq> [] \<Longrightarrow>
   sorted_trap_ids prev = sorted_trap_ids cur \<Longrightarrow>
   async_update_data cfg (Inr cur) w = (Inr cur, w)"
  by (simp add: async_update_data_def get_traps_Inr Let_def)

text \<open>
  C1. With a previous, non-empty fetch result and a fetch that answers, the update fires
  the trap-list-changed event exactly when the identifiers of the previous fetch, sorted
  in ascending order, differ from the identifiers of the current fetch, sorted in ascending
  order, and it fires once; when the two sorted sequences are equal the bus is left as it
  was.
\<close>

theorem event_iff_sorted_ids_differ:
  assumes "data (coordinator w) = Some prev" and "prev \<noteq> []"
  shows "(\<exists>e. bus (snd (async_update_data cfg (Inr cur) w)) = bus w @ [e]
              \<and> event_type e = EVENT_TRAP_LIST_CHANGED cfg)
           = (sort (map id' prev) \<noteq> sort (map id' cur))
         \<and> (bus (snd (async_update_data cfg (Inr cur) w)) = bus w)
           = (sort (map id' prev) = sort (map id' cur))"
proof (cases "sorted_trap_ids prev = sorted_trap_ids cur")
  case True
  with assms have "async_update_data cfg (Inr cur) w = (Inr cur, w)"
    by (rule update_unchanged)
  with True show ?thesis by (simp add: sorted_trap_ids_def)
next
  case False
  with assms have "async_update_data cfg (Inr cur) w =
      (Inr cur,
       w\<lparr>bus := bus w @
         [trap_list_changed_event cfg (sorted_trap_ids prev) (sorted_trap_ids cur)]\<rparr>)"
    by (rule update_changed)
  with False show ?thesis
    by (simp add: sorted_trap_ids_def trap_list_changed_event_def)
qed

text \<open>
  Two traps stored in the order 2, 1 and fetched in the order 1, 2: the identifier
  sequences differ as fetched, their sorted forms agree, and no event is fired. Fetching
  the traps 3, 1 instead fires the event.
\<close>

theorem event_iff_sorted_ids_differ_witness:
  "map id' [sample_trap 2 0, sample_trap 1 0] \<noteq> map id' [sample_trap 1 0, sample_trap 2 0]
   \<and> bus (snd (async_update_data sample_env (Inr [sample_trap 1 0, sample_trap 2 0])
                 (sample_world (Some [sample_trap 2 0, sample_trap 1 0]))))
       = bus (sample_world (Some [sample_trap 2 0, sample_trap 1 0]))
   \<and> (\<exists>e. bus (snd (async_update_data sample_env (Inr [sample_trap 3 0, sample_trap 1 0])
                     (sample_world (Some [sample_trap 2 0, sample_trap 1 0]))))
            = bus (sample_world (Some [sample_trap 2 0, sample_trap 1 0])) @ [e]
          \<and> event_type e = ''victorsmartkill_trap_list_changed'')"
proof -
  let ?w = "sample_world (Some [sample_trap 2 0, sample_trap 1 0])"
  have d: "data (coordinator ?w) = Some [sample_trap 2 0, sample_trap 1 0]"
    by (simp add: sample_world_def sample_coordinator_def)
  have n: "[sample_trap 2 0, sample_trap 1 0] \<noteq> []" by simp
  have m: "map id' [sample_trap 2 0, sample_trap 1 0]
      \<noteq> map id' [sample_trap 1 0, sample_trap 2 0]"
    by (simp add: sample_trap_def)
  have same: "sort (map id' [sample_trap 2 0, sample_trap 1 0])
      = sort (map id' [sample_trap 1 0, sample_trap 2 0])"
    by (simp add: sample_trap_def)
  have other: "sort (map id' [sample_trap 2 0, sample_trap 1 0])
      \<noteq> sort (map id' [sample_trap 3 0, sample_trap 1 0])"
    by (simp add: sample_trap_def)
  have t: "EVENT_TRAP_LIST_CHANGED sample_env = ''victorsmartkill_trap_list_changed''"
    by (simp add: sample_env_def)
  from event_iff_sorted_ids_differ
    [OF d n, of sample_env "[sample_trap 1 0, sample_trap 2 0]"] same
  have quiet: "bus (snd (async_update_data sample_env (Inr [sample_trap 1 0, sample_trap 2 0]) ?w))
      = bus ?w"
    by blast
  from event_iff_sorted_ids_differ
    [OF d n, of sample_env "[sample_trap 3 0, sample_trap 1 0]"] other
  have fired: "\<exists>e. bus (snd (async_update_data sample_env
                  (Inr [sample_trap 3 0, sample_trap 1 0]) ?w)) = bus ?w @ [e]
          \<and> event_type e = EVENT_TRAP_LIST_CHANGED sample_env"
    by blast
  from m quiet fired t show ?thesis by simp
qed

section \<open>What an update returns and fires\<close>

lemma update_returns_list:
  "fst (async_update_data cfg (Inr traps) w) = Inr traps"
  by (simp add: async_update_data_def get_traps_Inr Let_def)

lemma update_keeps_coordinator:
  "coordinator (snd (async_update_data cfg api w)) = coordinator w"
  by (cases api) (simp_all add: async_update_data_def get_traps_Inr get_traps_Inl Let_def)

text \<open>
  C2 (as amended). The update removes nothing from what it fetched: the list it returns, and
  the list a refresh then stores, is the freshly fetched list itself, with the same records
  in the same order and number, whatever the previous fetch held.
\<close>

theorem update_returns_fetched_list:
  "fst (async_update_data cfg (Inr traps) w) = Inr traps
   \<and> data (coordinator (async_refresh cfg (Inr traps) w)) = Some traps"
  by (simp add: async_refresh_def async_update_data_def get_traps_Inr Let_def)

text \<open>
  The claim as stated fails: with one trap stored and the same record fetched twice, the
  returned list repeats a record and shares it with the previous fetch.
\<close>

theorem returned_list_keeps_duplicates_counterexample:
  "data (coordinator (sample_world (Some [sample_trap 1 0]))) = Some [sample_trap 1 0]
   \<and> fst (async_update_data sample_env (Inr [sample_trap 1 0, sample_trap 1 0])
             (sample_world (Some [sample_trap 1 0])))
       = Inr [sample_trap 1 0, sample_trap 1 0]
   \<and> \<not> distinct [sample_trap 1 0, sample_trap 1 0]
   \<and> set [sample_trap 1 0, sample_trap 1 0] \<inter> set [sample_trap 1 0] \<noteq> {}"
  by (simp add: sample_world_def sample_coordinator_def async_update_data_def
      get_traps_Inr Let_def)

text \<open>
  C3. Whenever the update fires an event, there are a previous and a current fetch, one
  event named trap-list-changed is appended, and its payload maps \<open>previous_traps\<close> to the
  identifiers of the previous fetch sorted in ascending order, \<open>current_traps\<close> to the
  identifiers of the current fetch sorted in ascending order, and has no other key.
\<close>

theorem event_payload:
  assumes "bus (snd (async_update_data cfg api w)) \<noteq> bus w"
  shows "\<exists>prev cur e. data (coordinator w) = Some prev \<and> api = Inr cur
           \<and> bus (snd (async_update_data cfg api w)) = bus w @ [e]
           \<and> event_type e = EVENT_TRAP_LIST_CHANGED cfg
           \<and> map_of (event_data e) ''previous_traps'' = Some (sort (map id' prev))
           \<and> map_of (event_data e) ''current_traps'' = Some (sort (map id' cur))
           \<and> dom (map_of (event_data e)) = {''previous_traps'', ''current_traps''}"
proof (cases api)
  case (Inl x)
  with assms show ?thesis by (simp add: update_failed_fetch)
next
  case (Inr cur)
  show ?thesis
  proof (cases "data (coordinator w)")
    case None
    with assms Inr show ?thesis by (simp add: update_first_fetch)
  next
    case (Some prev)
    show ?thesis
    proof (cases "prev = []")
      case True
      with assms Inr Some show ?thesis by (simp add: update_first_fetch)
    next
      case False
      show ?thesis
      proof (cases "sorted_trap_ids prev = sorted_trap_ids cur")
        case True
        with assms Inr Some False show ?thesis by (simp add: update_unchanged)
      next
        case differ: False
        let ?e = "trap_list_changed_event cfg (sorted_trap_ids prev) (sorted_trap_ids cur)"
        have run: "async_update_data cfg api w = (Inr cur, w\<lparr>bus := bus w @ [?e]\<rparr>)"
          using Inr Some False differ by (simp add: update_changed)
        have b: "bus (snd (async_update_data cfg api w)) = bus w @ [?e]"
          by (simp add: run)
        have t: "event_type ?e = EVENT_TRAP_LIST_CHANGED cfg"
          by (simp add: trap_list_changed_event_def)
        have p: "map_of (event_data ?e) ''previous_traps'' = Some (sort (map id' prev))"
          by (simp add: trap_list_changed_event_def sorted_trap_ids_def)
        have c: "map_of (event_data ?e) ''current_traps'' = Some (sort (map id' cur))"
          by (simp add: trap_list_changed_event_def sorted_trap_ids_def)
        have k: "dom (map_of (event_data ?e)) = {''previous_traps'', ''current_traps''}"
          by (auto simp add: trap_list_changed_event_def split: if_splits)
        from Some Inr b t p c k show ?thesis by blast
      qed
    qed
  qed
qed

text \<open>
  Traps stored in the order 2, 1 and fetched in the order 3, 1: the payload carries
  \<open>[1, 2]\<close> and \<open>[1, 3]\<close>.
\<close>

theorem event_payload_witness:
  "\<exists>e. bus (snd (async_update_data sample_env (Inr [sample_trap 3 0, sample_trap 1 0])
                  (sample_world (Some [sample_trap 2 0, sample_trap 1 0]))))
         = bus (sample_world (Some [sample_trap 2 0, sample_trap 1 0])) @ [e]
       \<and> event_type e = ''victorsmartkill_trap_list_changed''
       \<and> map_of (event_data e) ''previous_traps'' = Some [1, 2]
       \<and> map_of (event_data e) ''current_traps'' = Some [1, 3]"
proof -
  let ?w = "sample_world (Some [sample_trap 2 0, sample_trap 1 0])"
  let ?api = "Inr [sample_trap 3 0, sample_trap 1 0] :: exn + Trap list"
  have d: "data (coordinator ?w) = Some [sample_trap 2 0, sample_trap 1 0]"
    by (simp add: sample_world_def sample_coordinator_def)
  have p: "sort (map id' [sample_trap 2 0, sample_trap 1 0]) = [1, 2]"
    by (simp add: sample_trap_def)
  have c: "sort (map id' [sample_trap 3 0, sample_trap 1 0]) = [1, 3]"
    by (simp add: sample_trap_def)
  have differ: "sorted_trap_ids [sample_trap 2 0, sample_trap 1 0]
      \<noteq> sorted_trap_ids [sample_trap 3 0, sample_trap 1 0]"
    unfolding sorted_trap_ids_def p c by simp
  have n: "[sample_trap 2 0, sample_trap 1 0] \<noteq> []" by simp
  have r: "bus (snd (async_update_data sample_env ?api ?w)) =
      bus ?w @ [trap_list_changed_event sample_env
        (sorted_trap_ids [sample_trap 2 0, sample_trap 1 0])
        (sorted_trap_ids [sample_trap 3 0, sample_trap 1 0])]"
    by (simp add: update_changed [OF d n differ])
  have h: "bus (snd (async_update_data sample_env ?api ?w)) \<noteq> bus ?w"
    by (simp add: r)
  have t: "EVENT_TRAP_LIST_CHANGED sample_env = ''victorsmartkill_trap_list_changed''"
    by (simp add: sample_env_def)
  from event_payload [OF h] show ?thesis
  proof (elim exE conjE)
    fix prev cur e
    assume e1: "data (coordinator ?w) = Some prev" and e2: "?api = Inr cur"
      and e3: "bus (snd (async_update_data sample_env ?api ?w)) = bus ?w @ [e]"
      and e4: "event_type e = EVENT_TRAP_LIST_CHANGED sample_env"
      and e5: "map_of (event_data e) ''previous_traps'' = Some (sort (map id' prev))"
      and e6: "map_of (event_data e) ''current_traps'' = Some (sort (map id' cur))"
    from e1 d have pv: "prev = [sample_trap 2 0, sample_trap 1 0]" by simp
    from e2 have cv: "cur = [sample_trap 3 0, sample_trap 1 0]" by simp
    from e4 t have f4: "event_type e = ''victorsmartkill_trap_list_changed''" by simp
    from e5 p have f5: "map_of (event_data e) ''previous_traps'' = Some [1, 2]"
      unfolding pv by simp
    from e6 c have f6: "map_of (event_data e) ''current_traps'' = Some [1, 3]"
      unfolding cv by simp
    show ?thesis
      by (rule exI [of _ e]) (simp only: e3 f4 f5 f6 simp_thms)
  qed
qed

text \<open>
  C4. When the previous fetch result is absent or the empty list, the update fires no
  event, whatever the current fetch gives: going from no traps to some traps is silent.
\<close>

theorem no_event_without_previous_traps:
  assumes "data (coordinator w) = None \<or> data (coordinator w) = Some []"
  shows "bus (snd (async_update_data cfg api w)) = bus w"
proof -
  from assms have "not_data (data (coordinator w))" by auto
  then show ?thesis by (simp add: update_first_fetch)
qed

theorem no_event_without_previous_traps_witness:
  "data (coordinator (sample_world (Some []))) = Some []
   \<and> fst (async_update_data sample_env (Inr [sample_trap 1 0]) (sample_world (Some [])))
       = Inr [sample_trap 1 0]
   \<and> bus (snd (async_update_data sample_env (Inr [sample_trap 1 0]) (sample_world (Some []))))
       = bus (sample_world (Some []))"
proof -
  have d: "data (coordinator (sample_world (Some []))) = Some []"
    by (simp add: sample_world_def sample_coordinator_def)
  then have h: "data (coordinator (sample_world (Some []))) = None
      \<or> data (coordinator (sample_world (Some []))) = Some []" by simp
  from no_event_without_previous_traps [OF h, of sample_env "Inr [sample_trap 1 0]"] d
  show ?thesis by (simp add: update_returns_list)
qed

section \<open>Failed fetches\<close>

lemma except_Exception_UpdateFailed:
  "(except_Exception x = UpdateFailed y) = (x = y \<and> isinstance_Exception y)"
  by (cases x) (auto simp add: except_Exception_def)

lemma except_Exception_outside:
  "\<not> isinstance_Exception x \<Longrightarrow> except_Exception x = x"
  by (simp add: except_Exception_def)

lemma isinstance_coroutine_raises:
  "isinstance_Exception (coroutine_raises e) = isinstance_Exception e"
  by (cases e) (simp_all add: coroutine_raises_def)

lemma coroutine_raises_other:
  "e \<noteq> StopIteration \<Longrightarrow> coroutine_raises e = e"
  by (simp add: coroutine_raises_def)

text \<open>
  C5 (as amended). The update raises \<open>UpdateFailed\<close> exactly when the API fetch raises an
  instance of \<open>Exception\<close>, the class the \<open>except\<close> clause names. What it wraps is the
  exception as it reaches the clause: the original one, and for a \<open>StopIteration\<close> the
  \<open>RuntimeError\<close> it has become on leaving the coroutine. An exception outside
  \<open>Exception\<close> leaves the update as it is, unwrapped. Whatever the fetch raises, no list is
  returned and the state is left as it was: no event is fired and the stored data is
  untouched. The coordinator, and with it the stored data, is untouched by every update.
\<close>

theorem update_failed_iff_fetch_raises_Exception:
  "(\<exists>x. fst (async_update_data cfg api w) = Inl (UpdateFailed x))
     = (\<exists>e. api = Inl e \<and> isinstance_Exception e)
   \<and> (api = Inl e \<and> isinstance_Exception e \<and> e \<noteq> StopIteration \<longrightarrow>
        fst (async_update_data cfg api w) = Inl (UpdateFailed e))
   \<and> (api = Inl StopIteration \<longrightarrow>
        fst (async_update_data cfg api w) = Inl (UpdateFailed RuntimeError))
   \<and> (api = Inl e \<and> \<not> isinstance_Exception e \<longrightarrow>
        fst (async_update_data cfg api w) = Inl e)
   \<and> (api = Inl e \<longrightarrow> snd (async_update_data cfg api w) = w)
   \<and> coordinator (snd (async_update_data cfg api w)) = coordinator w"
proof (cases api)
  case (Inl x)
  have r: "async_update_data cfg api w = (Inl (except_Exception (coroutine_raises x)), w)"
    using Inl by (simp add: update_failed_fetch)
  have a: "(\<exists>y. except_Exception (coroutine_raises x) = UpdateFailed y)
      = isinstance_Exception x"
    by (simp add: except_Exception_UpdateFailed isinstance_coroutine_raises)
  have b: "isinstance_Exception x \<Longrightarrow> x \<noteq> StopIteration \<Longrightarrow>
      except_Exception (coroutine_raises x) = UpdateFailed x"
    by (simp add: coroutine_raises_other except_Exception_def)
  have c: "x = StopIteration \<Longrightarrow>
      except_Exception (coroutine_raises x) = UpdateFailed RuntimeError"
    by (simp add: coroutine_raises_def except_Exception_def)
  have d: "\<not> isinstance_Exception x \<Longrightarrow> except_Exception (coroutine_raises x) = x"
    by (cases x) (simp_all add: coroutine_raises_def except_Exception_def)
  from Inl r a b c d show ?thesis by auto
next
  case (Inr traps)
  with update_returns_list [of cfg traps w] show ?thesis
    by (simp add: update_keeps_coordinator)
qed

theorem update_failed_iff_fetch_raises_Exception_witness:
  "fst (async_update_data sample_env (Inl (Exception ''timeout''))
          (sample_world (Some [sample_trap 1 0])))
     = Inl (UpdateFailed (Exception ''timeout''))
   \<and> snd (async_update_data sample_env (Inl (Exception ''timeout''))
          (sample_world (Some [sample_trap 1 0])))
     = sample_world (Some [sample_trap 1 0])
   \<and> fst (async_update_data sample_env (Inl StopIteration)
          (sample_world (Some [sample_trap 1 0])))
     = Inl (UpdateFailed RuntimeError)
   \<and> fst (async_update_data sample_env (Inl (BaseException ''CancelledError''))
          (sample_world (Some [sample_trap 1 0])))
     = Inl (BaseException ''CancelledError'')"
proof -
  let ?w = "sample_world (Some [sample_trap 1 0])"
  from update_failed_iff_fetch_raises_Exception
    [of sample_env "Inl (Exception ''timeout'')" ?w "Exception ''timeout''"]
  have a: "fst (async_update_data sample_env (Inl (Exception ''timeout'')) ?w)
        = Inl (UpdateFailed (Exception ''timeout''))
      \<and> snd (async_update_data sample_env (Inl (Exception ''timeout'')) ?w) = ?w"
    by simp
  from update_failed_iff_fetch_raises_Exception
    [of sample_env "Inl StopIteration" ?w StopIteration]
  have b: "fst (async_update_data sample_env (Inl StopIteration) ?w)
        = Inl (UpdateFailed RuntimeError)"
    by simp
  from update_failed_iff_fetch_raises_Exception
    [of sample_env "Inl (BaseException ''CancelledError'')" ?w "BaseException ''CancelledError''"]
  have c: "fst (async_update_data sample_env (Inl (BaseException ''CancelledError'')) ?w)
        = Inl (BaseException ''CancelledError'')"
    by simp
  from a b c show ?thesis by simp
qed

text \<open>
  The claim as stated fails: a fetch that is cancelled raises, and the update raises the
  cancellation itself, not \<open>UpdateFailed\<close>.
\<close>

theorem cancelled_fetch_not_wrapped_counterexample:
  "fst (async_update_data sample_env (Inl (BaseException ''CancelledError''))
          (sample_world (Some [sample_trap 1 0])))
     = Inl (BaseException ''CancelledError'')
   \<and> \<not> (\<exists>x. fst (async_update_data sample_env (Inl (BaseException ''CancelledError''))
                  (sample_world (Some [sample_trap 1 0])))
              = Inl (UpdateFailed x))"
  by (simp add: update_failed_fetch coroutine_raises_def except_Exception_def)

section \<open>The comparison and sets of identifiers\<close>

lemma sort_eq_iff_mset_eq:
  fixes xs ys :: "int list"
  shows "(sort xs = sort ys) = (mset xs = mset ys)"
proof
  assume "sort xs = sort ys"
  then have "mset (sort xs) = mset (sort ys)" by simp
  then show "mset xs = mset ys" by simp
next
  assume "mset xs = mset ys"
  then have "mset (sort ys) = mset xs" by simp
  then show "sort xs = sort ys" by (rule properties_for_sort) simp
qed

text \<open>
  C6 (as amended). The comparison of the sorted identifier sequences says "different"
  exactly when the two fetches differ as multisets of identifiers, that is in some
  identifier or in how often it occurs; for two fetches in which no identifier repeats
  this is exactly when their sets of identifiers differ.
\<close>

theorem sorted_ids_differ_iff_multisets_differ:
  "(sorted_trap_ids previous \<noteq> sorted_trap_ids current)
     = (mset (map id' previous) \<noteq> mset (map id' current))
   \<and> (distinct (map id' previous) \<and> distinct (map id' current) \<longrightarrow>
        (sorted_trap_ids previous \<noteq> sorted_trap_ids current)
          = (set (map id' previous) \<noteq> set (map id' current)))"
  unfolding sorted_trap_ids_def sort_eq_iff_mset_eq
  using set_eq_iff_mset_eq_distinct [of "map id' previous" "map id' current"] by blast

theorem sorted_ids_differ_iff_multisets_differ_witness:
  "distinct (map id' [sample_trap 1 0]) \<and> distinct (map id' [sample_trap 1 0, sample_trap 2 0])
   \<and> sorted_trap_ids [sample_trap 1 0] \<noteq> sorted_trap_ids [sample_trap 1 0, sample_trap 2 0]
   \<and> set (map id' [sample_trap 1 0]) \<noteq> set (map id' [sample_trap 1 0, sample_trap 2 0])"
proof -
  have d: "distinct (map id' [sample_trap 1 0])
      \<and> distinct (map id' [sample_trap 1 0, sample_trap 2 0])"
    by (simp add: sample_trap_def)
  have s: "set (map id' [sample_trap 1 0]) \<noteq> set (map id' [sample_trap 1 0, sample_trap 2 0])"
    by (simp add: sample_trap_def)
  from sorted_ids_differ_iff_multisets_differ
    [of "[sample_trap 1 0]" "[sample_trap 1 0, sample_trap 2 0]"] d s
  show ?thesis by blast
qed

text \<open>
  The claim as stated fails when an identifier repeats: one trap against the same trap
  listed twice has the same set of identifiers, yet the sorted sequences differ.
\<close>

theorem sorted_ids_vs_id_sets_counterexample:
  "\<not> ((sorted_trap_ids [sample_trap 1 0] \<noteq> sorted_trap_ids [sample_trap 1 0, sample_trap 1 0])
       = (set (map id' [sample_trap 1 0]) \<noteq> set (map id' [sample_trap 1 0, sample_trap 1 0])))"
  by (simp add: sorted_trap_ids_def)

section \<open>Entity properties\<close>

text \<open>
  C7. For every trap record, \<open>is_on\<close> of the binary sensor built on it is true exactly when
  the trap's \<open>trapstatistics.kills_present\<close> is greater than zero.
\<close>

theorem is_on_iff_kills_present:
  "fst (is_on \<lparr>trap = t, entity_coordinator = c\<rparr>) = (0 < kills_present (trapstatistics t))"
  by (simp add: is_on_def)

text \<open>
  C8. Evaluating \<open>name\<close>, \<open>unique_id\<close>, \<open>device_info\<close>, \<open>device_state_attributes\<close> or \<open>is_on\<close>
  leaves the entity as it was, and with it the trap record it holds and the trap list its
  coordinator stores; this holds also when \<open>device_state_attributes\<close> raises.
\<close>

theorem properties_read_only:
  "snd (entity_name e) = e \<and> snd (unique_id cfg e) = e \<and> snd (device_info cfg e) = e
   \<and> snd (device_state_attributes cfg e) = e \<and> snd (is_on e) = e"
  by (simp add: entity_name_def unique_id_def device_info_def device_state_attributes_def
      is_on_def Let_def split: option.split)

lemma next_with_id_first:
  "id' t = trap_id \<Longrightarrow> trap_id \<notin> id' ` set pre \<Longrightarrow>
   next_with_id trap_id (pre @ t # post) = Inr t"
  by (induction pre) auto

lemma next_with_id_none:
  "trap_id \<notin> id' ` set traps \<Longrightarrow> next_with_id trap_id traps = Inl StopIteration"
  by (induction traps) auto

lemma next_with_id_raises:
  "next_with_id trap_id traps = Inl x \<Longrightarrow> x = StopIteration"
  by (induction traps) (auto split: if_splits)

text \<open>
  C9. When the coordinator's data list holds a trap with the given id, the constructor
  sets the entity's trap to the first such trap; when none has that id it raises
  \<open>StopIteration\<close>; and for no input at all does it raise the \<open>ValueError\<close> of the
  "trap not found" branch.
\<close>

theorem entity_init_first_trap_or_StopIteration:
  "(data c = Some (pre @ t # post) \<and> id' t = trap_id \<and> trap_id \<notin> id' ` set pre \<longrightarrow>
      VictorSmartKillEntity trap_id c = Inr \<lparr>trap = t, entity_coordinator = c\<rparr>)
   \<and> (data c = Some traps \<and> trap_id \<notin> id' ` set traps \<longrightarrow>
      VictorSmartKillEntity trap_id c = Inl StopIteration)
   \<and> VictorSmartKillEntity trap_id c \<noteq> Inl ValueError"
proof (intro conjI impI)
  assume "data c = Some (pre @ t # post) \<and> id' t = trap_id \<and> trap_id \<notin> id' ` set pre"
  then show "VictorSmartKillEntity trap_id c = Inr \<lparr>trap = t, entity_coordinator = c\<rparr>"
    by (simp add: VictorSmartKillEntity_def next_with_id_first bool_Trap_def)
next
  assume "data c = Some traps \<and> trap_id \<notin> id' ` set traps"
  then show "VictorSmartKillEntity trap_id c = Inl StopIteration"
    by (simp add: VictorSmartKillEntity_def next_with_id_none)
next
  show "VictorSmartKillEntity trap_id c \<noteq> Inl ValueError"
    by (auto simp add: VictorSmartKillEntity_def bool_Trap_def
        split: option.splits sum.splits dest: next_with_id_raises)
qed

theorem entity_init_first_trap_or_StopIteration_witness:
  "VictorSmartKillEntity 2
      (sample_coordinator (Some [sample_trap 1 0, sample_trap 2 1, sample_trap 2 5]))
     = Inr \<lparr>trap = sample_trap 2 1,
            entity_coordinator =
              sample_coordinator (Some [sample_trap 1 0, sample_trap 2 1, sample_trap 2 5])\<rparr>
   \<and> VictorSmartKillEntity 7
      (sample_coordinator (Some [sample_trap 1 0, sample_trap 2 1, sample_trap 2 5]))
     = Inl StopIteration"
proof -
  let ?c = "sample_coordinator (Some [sample_trap 1 0, sample_trap 2 1, sample_trap 2 5])"
  have d: "data ?c = Some ([sample_trap 1 0] @ sample_trap 2 1 # [sample_trap 2 5])"
    by (simp add: sample_coordinator_def)
  have i: "id' (sample_trap 2 1) = 2 \<and> 2 \<notin> id' ` set [sample_trap 1 0]"
    by (simp add: sample_trap_def)
  have n: "7 \<notin> id' ` set ([sample_trap 1 0] @ sample_trap 2 1 # [sample_trap 2 5])"
    by (simp add: sample_trap_def)
  from entity_init_first_trap_or_StopIteration
    [where c = ?c and pre = "[sample_trap 1 0]" and t = "sample_trap 2 1"
       and post = "[sample_trap 2 5]" and trap_id = 2] d i
  have found: "VictorSmartKillEntity 2 ?c = Inr \<lparr>trap = sample_trap 2 1, entity_coordinator = ?c\<rparr>"
    by blast
  from entity_init_first_trap_or_StopIteration
    [where c = ?c and trap_id = 7
       and traps = "[sample_trap 1 0] @ sample_trap 2 1 # [sample_trap 2 5]"] d n
  have missing: "VictorSmartKillEntity 7 ?c = Inl StopIteration"
    by blast
  from found missing show ?thesis by simp
qed

section \<open>The polling interval\<close>

lemma do_step_interval:
  "update_interval (coordinator (do_step cfg s w)) = update_interval (coordinator w)"
proof (cases s)
  case (Refresh api)
  have "coordinator (snd (async_update_data cfg api w)) = coordinator w"
    by (rule update_keeps_coordinator)
  then show ?thesis using Refresh
    by (cases "async_update_data cfg api w") (auto simp add: async_refresh_def split: sum.splits)
next
  case (AppendPlatform p)
  then show ?thesis by (simp add: append_platform_def)
next
  case Close
  then show ?thesis by (simp add: async_close_def)
qed

lemma fold_do_step_interval:
  "update_interval (coordinator (fold (do_step cfg) steps w)) = update_interval (coordinator w)"
  by (induction steps arbitrary: w) (simp_all add: do_step_interval)

text \<open>
  C10. The coordinator is built with the scan interval of five minutes, and after any
  sequence of refreshes, platform registrations and closes its update interval is still
  that constant.
\<close>

theorem update_interval_fixed:
  "update_interval (coordinator (run cfg steps (setup_world events))) = SCAN_INTERVAL
   \<and> SCAN_INTERVAL = 5 * 60"
  by (simp add: run_def fold_do_step_interval setup_world_def
      VictorSmartKillDataUpdateCoordinator_def SCAN_INTERVAL_def timedelta_minutes_def)

end
